theory Spec2Isabelle
  imports Main "HOL-Library.AList" "HOL-Library.Sublist" "HOL-Library.Word"
begin

unbundle bit_operations_syntax

section \<open>Card-management routes of the flashcard backend\<close>

text \<open>
  The development embeds \<^verbatim>\<open>backend/routes/api/card_management.py\<close>: the id function
  \<^verbatim>\<open>hash_to_numeric\<close> and the four request handlers \<^verbatim>\<open>create_flashcard\<close>,
  \<^verbatim>\<open>get_flashcard\<close>, \<^verbatim>\<open>get_today_cards\<close> and \<^verbatim>\<open>move_flashcard_set\<close>.

  A Python string is represented by its UTF-8 byte sequence (an Isabelle \<open>string\<close>).
  The operations the handlers apply to strings (concatenation, \<^verbatim>\<open>endswith("/")\<close>,
  comparison with the empty string, \<^verbatim>\<open>encode()\<close>) give the same result on the byte
  sequence as on the code points, because the byte of \<open>/\<close> occurs in UTF-8 only as that
  character.
\<close>

subsection \<open>Documents\<close>

text \<open>
  The values that travel between the handlers and the persistence layer are JSON shaped:
  strings, numbers, booleans, sequences and mappings. A mapping is a Python \<^verbatim>\<open>dict\<close>; it
  is kept as an association list in insertion order, read with \<open>map_of\<close>, written with
  \<open>AList.update\<close> (an existing key keeps its place, a new key goes to the end, as a
  \<^verbatim>\<open>dict\<close> assignment does) and reduced with \<open>AList.delete\<close> (\<^verbatim>\<open>dict.pop\<close>).
\<close>

datatype json =
    JStr string
  | JNum int
  | JBool bool
  | JList "json list"
  | JObj "(string \<times> json) list"

subsection \<open>The persistence layer\<close>

text \<open>
  The module \<^verbatim>\<open>database.database\<close> is imported by the routes but is not part of the
  sources at hand; its two operations \<^verbatim>\<open>db.get\<close> and \<^verbatim>\<open>db.save\<close> are modelled from
  the specification: a tree-shaped namespace of JSON-shaped documents addressed by
  \<open>/\<close>-delimited strings, where a folder exists only as a path prefix and reading a folder
  address yields the mapping of everything stored below it.
\<close>

text \<open>Modelled from the spec: an address is a \<open>/\<close>-delimited string, a sequence of
  segments each terminated by a separator; \<open>segments_acc\<close> cuts an address at every
  separator and keeps the non-empty pieces, so that a leading, a trailing or a doubled
  separator contributes no segment (the empty and the root folder are the empty path).\<close>

fun segments_acc :: "string \<Rightarrow> string \<Rightarrow> string list" where
  "segments_acc cur [] = (if cur = [] then [] else [cur])"
| "segments_acc cur (c # cs) =
     (if c = CHR ''/''
      then (if cur = [] then [] else [cur]) @ segments_acc [] cs
      else segments_acc (cur @ [c]) cs)"

text \<open>Modelled from the spec: the segments of an address.\<close>

definition segments :: "string \<Rightarrow> string list" where
  "segments a = segments_acc [] a"

text \<open>Modelled from the spec: \<open>get(address) -> document | absent\<close> on the tree. The
  document at the empty path is the tree itself; a mapping is entered by key; any other
  document has nothing below it.\<close>

fun get_at :: "json \<Rightarrow> string list \<Rightarrow> json option" where
  "get_at t [] = Some t"
| "get_at (JObj m) (k # ks) = (case map_of m k of None \<Rightarrow> None | Some c \<Rightarrow> get_at c ks)"
| "get_at _ (k # ks) = None"

text \<open>Modelled from the spec: \<open>put(address, document)\<close> on the tree. The document at the
  address is replaced; the folders on the way exist implicitly as path prefixes, so a
  missing (or non-mapping) node on the way becomes a mapping holding the rest of the path.\<close>

fun set_at :: "json \<Rightarrow> string list \<Rightarrow> json \<Rightarrow> json" where
  "set_at t [] v = v"
| "set_at (JObj m) (k # ks) v =
     JObj (AList.update k (set_at (case map_of m k of None \<Rightarrow> JObj [] | Some c \<Rightarrow> c) ks v) m)"
| "set_at _ (k # ks) v = JObj [(k, set_at (JObj []) ks v)]"

text \<open>
  Exceptions that can leave a handler. \<open>StorageUnavailable\<close> is the failure of the
  persistence layer named by the specification; \<open>AttributeError\<close> and \<open>TypeError\<close> are
  Python's.
\<close>

datatype exn = StorageUnavailable | AttributeError | TypeError

text \<open>Modelled from the spec: the state of the persistence layer. \<open>root\<close> is the stored
  tree. \<open>writes_left\<close> injects the failure the specification describes (the store becomes
  unavailable between two writes): \<open>None\<close> is a store that never fails, \<open>Some n\<close> one
  that performs \<open>n\<close> more writes and raises \<open>StorageUnavailable\<close> on every later one.\<close>

record database =
  root :: json
  writes_left :: "nat option"

text \<open>Modelled from the spec: \<^verbatim>\<open>db.get(address)\<close>, the document at the address or
  \<open>None\<close> (Python's \<^verbatim>\<open>None\<close>) when nothing is stored there.\<close>

definition db_get :: "database \<Rightarrow> string \<Rightarrow> json option" where
  "db_get d a = get_at (root d) (segments a)"

text \<open>Modelled from the spec: \<^verbatim>\<open>db.save(address, document)\<close>. A write that the store
  can still perform replaces the document at the address; a write after the store became
  unavailable raises and leaves the stored tree as it was.\<close>

definition db_save :: "database \<Rightarrow> string \<Rightarrow> json \<Rightarrow> exn + database" where
  "db_save d a v =
     (case writes_left d of
        None \<Rightarrow> Inr (d\<lparr>root := set_at (root d) (segments a) v\<rparr>)
      | Some 0 \<Rightarrow> Inl StorageUnavailable
      | Some (Suc n) \<Rightarrow>
          Inr (d\<lparr>root := set_at (root d) (segments a) v, writes_left := Some n\<rparr>))"

subsection \<open>SHA-256\<close>

text \<open>
  \<^verbatim>\<open>hashlib.sha256\<close> is the SHA-256 function of FIPS 180-4. A 32-bit word is an \<open>int\<close>
  kept below \<open>2 ^ 32\<close>: additions are reduced with \<open>take_bit 32\<close>, a rotation moves the
  low bits to the top, and the complement of a word is its difference from \<open>2 ^ 32 - 1\<close>.
  A byte is an \<open>int\<close> below \<open>256\<close>.
\<close>

definition add32 :: "int \<Rightarrow> int \<Rightarrow> int" where
  "add32 x y = take_bit 32 (x + y)"

definition rotr :: "nat \<Rightarrow> int \<Rightarrow> int" where
  "rotr n x = drop_bit n x OR push_bit (32 - n) (take_bit n x)"

definition ch :: "int \<Rightarrow> int \<Rightarrow> int \<Rightarrow> int" where
  "ch x y z = (x AND y) XOR ((4294967295 - x) AND z)"

definition maj :: "int \<Rightarrow> int \<Rightarrow> int \<Rightarrow> int" where
  "maj x y z = (x AND y) XOR (x AND z) XOR (y AND z)"

definition bsig0 :: "int \<Rightarrow> int" where
  "bsig0 x = rotr 2 x XOR rotr 13 x XOR rotr 22 x"

definition bsig1 :: "int \<Rightarrow> int" where
  "bsig1 x = rotr 6 x XOR rotr 11 x XOR rotr 25 x"

definition ssig0 :: "int \<Rightarrow> int" where
  "ssig0 x = rotr 7 x XOR rotr 18 x XOR drop_bit 3 x"

definition ssig1 :: "int \<Rightarrow> int" where
  "ssig1 x = rotr 17 x XOR rotr 19 x XOR drop_bit 10 x"

text \<open>The round constants, in the eight rows of the standard.\<close>

definition sha256_k :: "int list" where
  "sha256_k =
     [0x428a2f98, 0x71374491, 0xb5c0fbcf, 0xe9b5dba5, 0x3956c25b, 0x59f111f1, 0x923f82a4, 0xab1c5ed5] @
     [0xd807aa98, 0x12835b01, 0x243185be, 0x550c7dc3, 0x72be5d74, 0x80deb1fe, 0x9bdc06a7, 0xc19bf174] @
     [0xe49b69c1, 0xefbe4786, 0x0fc19dc6, 0x240ca1cc, 0x2de92c6f, 0x4a7484aa, 0x5cb0a9dc, 0x76f988da] @
     [0x983e5152, 0xa831c66d, 0xb00327c8, 0xbf597fc7, 0xc6e00bf3, 0xd5a79147, 0x06ca6351, 0x14292967] @
     [0x27b70a85, 0x2e1b2138, 0x4d2c6dfc, 0x53380d13, 0x650a7354, 0x766a0abb, 0x81c2c92e, 0x92722c85] @
     [0xa2bfe8a1, 0xa81a664b, 0xc24b8b70, 0xc76c51a3, 0xd192e819, 0xd6990624, 0xf40e3585, 0x106aa070] @
     [0x19a4c116, 0x1e376c08, 0x2748774c, 0x34b0bcb5, 0x391c0cb3, 0x4ed8aa4a, 0x5b9cca4f, 0x682e6ff3] @
     [0x748f82ee, 0x78a5636f, 0x84c87814, 0x8cc70208, 0x90befffa, 0xa4506ceb, 0xbef9a3f7, 0xc67178f2]"

type_synonym hstate = "int \<times> int \<times> int \<times> int \<times> int \<times> int \<times> int \<times> int"

definition sha256_init :: hstate where
  "sha256_init = (0x6a09e667, 0xbb67ae85, 0x3c6ef372, 0xa54ff53a,
                  0x510e527f, 0x9b05688c, 0x1f83d9ab, 0x5be0cd19)"

text \<open>The sixteen big-endian words of a 64-byte block.\<close>

fun be_words :: "int list \<Rightarrow> int list" where
  "be_words bs =
     (if length bs < 4 then []
      else (push_bit 24 (bs ! 0) OR push_bit 16 (bs ! 1) OR push_bit 8 (bs ! 2) OR bs ! 3)
             # be_words (drop 4 bs))"

text \<open>
  The message schedule. The words computed so far are kept newest first, so that
  \<open>W\<^sub>t\<^sub>-\<^sub>2\<close>, \<open>W\<^sub>t\<^sub>-\<^sub>7\<close>, \<open>W\<^sub>t\<^sub>-\<^sub>1\<^sub>5\<close> and \<open>W\<^sub>t\<^sub>-\<^sub>1\<^sub>6\<close> sit at positions 1, 6, 14 and 15;
  after the last step the list is put back in order.
\<close>

fun schedule :: "nat \<Rightarrow> int list \<Rightarrow> int list" where
  "schedule 0 rs = rev rs"
| "schedule (Suc n) rs =
     schedule n (add32 (add32 (add32 (ssig1 (rs ! 1)) (rs ! 6)) (ssig0 (rs ! 14))) (rs ! 15) # rs)"

fun shuffle :: "hstate \<Rightarrow> int \<Rightarrow> int \<Rightarrow> hstate" where
  "shuffle (a, b, c, d, e, f, g, h) t1 t2 = (add32 t1 t2, a, b, c, add32 d t1, e, f, g)"

fun round1 :: "hstate \<Rightarrow> int \<times> int \<Rightarrow> hstate" where
  "round1 (a, b, c, d, e, f, g, h) (k, w) =
     shuffle (a, b, c, d, e, f, g, h)
       (add32 (add32 (add32 (add32 h (bsig1 e)) (ch e f g)) k) w)
       (add32 (bsig0 a) (maj a b c))"

fun add_state :: "hstate \<Rightarrow> hstate \<Rightarrow> hstate" where
  "add_state (a, b, c, d, e, f, g, h) (a', b', c', d', e', f', g', h') =
     (add32 a a', add32 b b', add32 c c', add32 d d',
      add32 e e', add32 f f', add32 g g', add32 h h')"

definition compress :: "hstate \<Rightarrow> int list \<Rightarrow> hstate" where
  "compress st block =
     add_state st (foldl round1 st (zip sha256_k (schedule 48 (rev (be_words block)))))"

text \<open>The message length in bits, as eight big-endian bytes.\<close>

definition be_bytes8 :: "nat \<Rightarrow> int list" where
  "be_bytes8 n = map (\<lambda>i. take_bit 8 (drop_bit (8 * i) (int n))) [7, 6, 5, 4, 3, 2, 1, 0]"

text \<open>
  Padding: the byte \<open>0x80\<close>, then as few zero bytes as bring the length to 56 modulo 64,
  then the length.
\<close>

definition pad :: "int list \<Rightarrow> int list" where
  "pad m = m @ [0x80] @ replicate ((119 - length m mod 64) mod 64) 0 @ be_bytes8 (8 * length m)"

function blocks :: "hstate \<Rightarrow> int list \<Rightarrow> hstate" where
  "blocks st bs =
     (if length bs < 64 then st else blocks (compress st (take 64 bs)) (drop 64 bs))"
  by pat_completeness auto
termination
  by (relation "measure (\<lambda>(st, bs). length bs)") auto

declare blocks.simps [simp del]
declare be_words.simps [simp del]

definition sha256 :: "int list \<Rightarrow> hstate" where
  "sha256 m = blocks sha256_init (pad m)"

subsection \<open>\<^verbatim>\<open>hash_to_numeric\<close>\<close>

text \<open>\<^verbatim>\<open>input_string.encode()\<close>: the bytes of the string.\<close>

definition encode :: "string \<Rightarrow> int list" where
  "encode s = map of_char s"

definition hex_chars :: string where
  "hex_chars = ''0123456789abcdef''"

text \<open>\<^verbatim>\<open>hexdigest()\<close>: eight lower-case hexadecimal digits for each word of the digest.\<close>

definition hex8 :: "int \<Rightarrow> string" where
  "hex8 w = map (\<lambda>i. hex_chars ! nat (drop_bit (4 * i) w mod 16)) [7, 6, 5, 4, 3, 2, 1, 0]"

fun hexdigest :: "hstate \<Rightarrow> string" where
  "hexdigest (a, b, c, d, e, f, g, h) =
     hex8 a @ hex8 b @ hex8 c @ hex8 d @ hex8 e @ hex8 f @ hex8 g @ hex8 h"

text \<open>
  \<^verbatim>\<open>int(hashed_string, 16)\<close>. The value of a character is its position among the
  hexadecimal digits. Python raises \<^verbatim>\<open>ValueError\<close> on any other character; the digits of
  a \<open>hexdigest\<close> are all hexadecimal (lemma \<open>hexdigest_chars\<close>), so that branch is never
  taken here.
\<close>

fun index_of :: "char list \<Rightarrow> char \<Rightarrow> nat" where
  "index_of [] c = 0"
| "index_of (x # xs) c = (if x = c then 0 else Suc (index_of xs c))"

definition int_of_hex :: "string \<Rightarrow> int" where
  "int_of_hex s = foldl (\<lambda>acc c. 16 * acc + int (index_of hex_chars c)) 0 s"

text \<open>\<^verbatim>\<open>str(hashed_numeric)\<close>: Python's decimal rendering of an integer.\<close>

function str_digits :: "nat \<Rightarrow> string" where
  "str_digits n =
     (if n < 10 then [''0123456789'' ! n]
      else str_digits (n div 10) @ [''0123456789'' ! (n mod 10)])"
  by pat_completeness auto
termination
  by (relation "measure (\<lambda>n. n)") auto

declare str_digits.simps [simp del]

definition python_str :: "int \<Rightarrow> string" where
  "python_str i = (if i < 0 then CHR ''-'' # str_digits (nat (- i)) else str_digits (nat i))"

definition hash_to_numeric :: "string \<Rightarrow> string" where
  "hash_to_numeric input_string =
     python_str (int_of_hex (hexdigest (sha256 (encode input_string))))"

subsection \<open>Requests and responses\<close>

text \<open>
  Every handler first calls \<^verbatim>\<open>check_request_json(expected_format, request.json)\<close>, which
  belongs to a module that is not part of the sources at hand. Its result is a parameter
  of the handlers: \<open>Passed\<close> stands for \<^verbatim>\<open>True\<close>, \<open>Failed msg\<close> for the message
  it returns otherwise. After \<open>Passed\<close> the fields of the request are strings (and
  \<^verbatim>\<open>cards\<close> a JSON value); they are the further parameters, named as the local variables
  of the handlers. The parameter \<open>expected\<close> is the text \<^verbatim>\<open>str(expected_format)\<close>.
\<close>

datatype check_result = Passed | Failed string

text \<open>
  A response is a JSON body (\<open>None\<close> is Python's \<^verbatim>\<open>None\<close>, sent as \<^verbatim>\<open>null\<close>) with an
  HTTP status, or an exception that leaves the handler (the framework then answers 500).
\<close>

datatype response = Response "json option" nat | Unhandled exn

definition format_error :: "string \<Rightarrow> string \<Rightarrow> response" where
  "format_error result expected =
     Response (Some (JObj [(''error'',
       JStr (result @ ''. The request should be in the format: '' @ expected))])) 400"

text \<open>\<^verbatim>\<open>s.endswith("/")\<close>\<close>

definition endswith_sep :: "string \<Rightarrow> bool" where
  "endswith_sep s = (s \<noteq> [] \<and> last s = CHR ''/'')"

subsection \<open>\<^verbatim>\<open>create_flashcard\<close>\<close>

text \<open>Lines 88 to 90: \<^verbatim>\<open>if folder.endswith("/") is False: folder += "/"\<close>\<close>

definition create_folder_path :: "string \<Rightarrow> string" where
  "create_folder_path folder = (if \<not> endswith_sep folder then folder @ ''/'' else folder)"

text \<open>The document that line 96 saves.\<close>

definition set_document :: "string \<Rightarrow> string \<Rightarrow> string \<Rightarrow> json \<Rightarrow> json" where
  "set_document flashcard_id flashcard_name flashcard_description cards =
     JObj [(''flashcardID'', JStr flashcard_id),
           (''flashcardName'', JStr flashcard_name),
           (''flashcardDescription'', JStr flashcard_description),
           (''cards'', cards)]"

text \<open>\<^verbatim>\<open>jsonify({"success": True}, 200)\<close>: two positional arguments are sent as a JSON
  list; the status is the default one.\<close>

definition create_success :: response where
  "create_success = Response (Some (JList [JObj [(''success'', JBool True)], JNum 200])) 200"

text \<open>
  The handler returns its response and the state of the store. An exception raised inside
  the \<^verbatim>\<open>try\<close> block (here only a failing \<^verbatim>\<open>db.save\<close>) reaches
  \<^verbatim>\<open>return jsonify(e), 500\<close>, where \<^verbatim>\<open>jsonify\<close> cannot serialise the exception and raises
  \<^verbatim>\<open>TypeError\<close>.
\<close>

definition create_flashcard ::
  "check_result \<Rightarrow> string \<Rightarrow> database \<Rightarrow> string \<Rightarrow> string \<Rightarrow> string \<Rightarrow> json \<Rightarrow> string
     \<Rightarrow> response \<times> database" where
  "create_flashcard result expected d user_id flashcard_name flashcard_description cards folder =
     (case result of
        Failed msg \<Rightarrow> (format_error msg expected, d)
      | Passed \<Rightarrow>
          (let folder' = create_folder_path folder;
               flashcard_id = hash_to_numeric (user_id @ folder' @ flashcard_name);
               address = ''/users/'' @ user_id @ ''/flashcards/'' @ folder' @ flashcard_id
           in if db_get d address = None
              then (case db_save d address
                           (set_document flashcard_id flashcard_name flashcard_description cards) of
                      Inl e \<Rightarrow> (Unhandled TypeError, d)
                    | Inr d' \<Rightarrow> (create_success, d'))
              else (create_success, d)))"

subsection \<open>\<^verbatim>\<open>get_flashcard\<close>\<close>

definition get_flashcard ::
  "check_result \<Rightarrow> string \<Rightarrow> database \<Rightarrow> string \<Rightarrow> string \<Rightarrow> response" where
  "get_flashcard result expected d user_id flashcard_name =
     (case result of
        Failed msg \<Rightarrow> format_error msg expected
      | Passed \<Rightarrow>
          (let flashcard_id = hash_to_numeric (user_id @ flashcard_name)
           in Response (db_get d (''/users/'' @ user_id @ ''/flashcards/'' @ flashcard_id)) 200))"

subsection \<open>\<^verbatim>\<open>get_today_cards\<close>\<close>

text \<open>
  \<^verbatim>\<open>FlashcardCollection(flashcards).today_card_list\<close> comes from a class that is not
  part of the sources at hand; it is the parameter \<open>today_card_list\<close>.
\<close>

definition get_today_cards ::
  "(json \<Rightarrow> json) \<Rightarrow> check_result \<Rightarrow> string \<Rightarrow> database \<Rightarrow> string \<Rightarrow> response" where
  "get_today_cards today_card_list result expected d user_id =
     (case result of
        Failed msg \<Rightarrow> format_error msg expected
      | Passed \<Rightarrow>
          (case db_get d (''/users/'' @ user_id @ ''/flashcards'') of
             None \<Rightarrow> Response (Some (JList [JStr ''User has no flashcards''])) 200
           | Some flashcards \<Rightarrow> Response (Some (today_card_list flashcards)) 200))"

subsection \<open>\<^verbatim>\<open>move_flashcard_set\<close>\<close>

text \<open>Lines 218 to 221:
  \<^verbatim>\<open>if location.endswith("/") is False and location != "": location += "/"\<close>\<close>

definition move_folder_path :: "string \<Rightarrow> string" where
  "move_folder_path location =
     (if \<not> endswith_sep location \<and> location \<noteq> [] then location @ ''/'' else location)"

definition move_not_found :: "string \<Rightarrow> string \<Rightarrow> string \<Rightarrow> response" where
  "move_not_found user_id current_location flashcard_id =
     Response (Some (JObj [(''error'',
       JStr (''The flashcard set at '' @ ''/users/'' @ user_id @ ''/flashcards/''
             @ current_location @ flashcard_id @ '' does not exist''))])) 400"

definition move_success :: "string \<Rightarrow> string \<Rightarrow> string \<Rightarrow> string \<Rightarrow> response" where
  "move_success user_id current_location flashcard_id move_location =
     Response (Some (JObj [(''success'',
       JStr (''The flashcard set at '' @ ''/users/'' @ user_id @ ''/flashcards/''
             @ current_location @ flashcard_id @ '' has been moved to '' @ move_location))])) 200"

text \<open>
  The handler has no \<^verbatim>\<open>try\<close> block. \<^verbatim>\<open>flashcard_data.keys()\<close> exists only on a
  \<^verbatim>\<open>dict\<close>: for a stored document of any other kind line 225 raises
  \<^verbatim>\<open>AttributeError\<close>. The two writes of lines 234 and 238 are separate calls of
  \<^verbatim>\<open>db.save\<close>; when one of them raises, the handler ends there and the store keeps what
  was written before.
\<close>

definition move_flashcard_set ::
  "check_result \<Rightarrow> string \<Rightarrow> database \<Rightarrow> string \<Rightarrow> string \<Rightarrow> string \<Rightarrow> string
     \<Rightarrow> response \<times> database" where
  "move_flashcard_set result expected d user_id flashcard_id move_location current_location =
     (case result of
        Failed msg \<Rightarrow> (format_error msg expected, d)
      | Passed \<Rightarrow>
          (let current_location' = move_folder_path current_location;
               move_location' = move_folder_path move_location;
               source = ''/users/'' @ user_id @ ''/flashcards/'' @ current_location';
               target = ''/users/'' @ user_id @ ''/flashcards/'' @ move_location' @ flashcard_id
           in case db_get d source of
                None \<Rightarrow> (move_not_found user_id current_location' flashcard_id, d)
              | Some (JObj flashcard_data) \<Rightarrow>
                  (case map_of flashcard_data flashcard_id of
                     None \<Rightarrow> (move_not_found user_id current_location' flashcard_id, d)
                   | Some set_doc \<Rightarrow>
                       (case db_save d source (JObj (AList.delete flashcard_id flashcard_data)) of
                          Inl e \<Rightarrow> (Unhandled e, d)
                        | Inr d1 \<Rightarrow>
                            (case db_save d1 target set_doc of
                               Inl e \<Rightarrow> (Unhandled e, d1)
                             | Inr d2 \<Rightarrow>
                                 (move_success user_id current_location' flashcard_id
                                    move_location', d2))))
              | Some _ \<Rightarrow> (Unhandled AttributeError, d)))"

subsection \<open>Auxiliary notions for the statements\<close>

text \<open>\<open>can_write n d\<close>: the store \<open>d\<close> performs at least \<open>n\<close> more writes.\<close>

definition can_write :: "nat \<Rightarrow> database \<Rightarrow> bool" where
  "can_write n d = (case writes_left d of None \<Rightarrow> True | Some k \<Rightarrow> n \<le> k)"

text \<open>\<open>stored d a v\<close>: the store after a write of \<open>v\<close> at \<open>a\<close> that \<open>d\<close> performs.\<close>

definition stored :: "database \<Rightarrow> string \<Rightarrow> json \<Rightarrow> database" where
  "stored d a v =
     d\<lparr>root := set_at (root d) (segments a) v,
       writes_left := map_option (\<lambda>k. k - 1) (writes_left d)\<rparr>"

subsection \<open>Example data\<close>

text \<open>
  A small store used to run the handlers on concrete requests: user \<open>u\<close> owns folder
  \<open>a\<close>, holding the set \<open>7\<close>, and folder \<open>b\<close>, holding another set stored under the
  same id.
\<close>

definition example_doc :: json where
  "example_doc = set_document ''7'' ''Capitals'' ''Cities of the world'' (JList [])"

definition other_doc :: json where
  "other_doc = set_document ''7'' ''Rivers'' ''Rivers of the world'' (JList [])"

definition example_store :: "nat option \<Rightarrow> database" where
  "example_store w =
     \<lparr>root = JObj [(''users'', JObj [(''u'', JObj [(''flashcards'',
               JObj [(''a'', JObj [(''7'', example_doc)]),
                     (''b'', JObj [(''7'', other_doc)])])])])],
      writes_left = w\<rparr>"

subsection \<open>Facts about paths and the tree\<close>

lemma segments_acc_sep:
  "segments_acc cur (xs @ CHR ''/'' # ys) = segments_acc cur xs @ segments_acc [] ys"
  by (induction xs arbitrary: cur) simp_all

lemma segments_acc_plain:
  "CHR ''/'' \<notin> set s \<Longrightarrow> segments_acc cur s = (if cur @ s = [] then [] else [cur @ s])"
  by (induction s arbitrary: cur) auto

lemma segments_sep: "segments (xs @ CHR ''/'' # ys) = segments xs @ segments ys"
  by (simp add: segments_def segments_acc_sep)

lemma segments_plain: "CHR ''/'' \<notin> set s \<Longrightarrow> s \<noteq> [] \<Longrightarrow> segments s = [s]"
  by (simp add: segments_def segments_acc_plain)

lemma segments_Nil [simp]: "segments [] = []"
  by (simp add: segments_def)

lemma segments_leading_sep [simp]: "segments (CHR ''/'' # ys) = segments ys"
  using segments_sep [of "[]" ys] by simp

lemma get_at_set_at_same: "get_at (set_at t p v) p = Some v"
proof (induction p arbitrary: t)
  case Nil
  show ?case by simp
next
  case (Cons k ks)
  show ?case
    by (cases t) (simp_all add: update_conv' Cons.IH)
qed

lemma get_at_set_at_below: "get_at (set_at t p v) (p @ r) = get_at v r"
proof (induction p arbitrary: t)
  case Nil
  show ?case by simp
next
  case (Cons k ks)
  show ?case
    by (cases t) (simp_all add: update_conv' Cons.IH)
qed

lemma get_at_set_at_diverge:
  "\<not> prefix q r \<Longrightarrow> \<not> prefix r q \<Longrightarrow> get_at (set_at t q v) r = get_at t r"
proof (induction q arbitrary: t r)
  case Nil
  then show ?case by simp
next
  case (Cons k ks)
  from Cons.prems obtain j js where r: "r = j # js"
    by (cases r) auto
  show ?case
  proof (cases "j = k")
    case True
    with Cons.prems r have d: "\<not> prefix ks js" "\<not> prefix js ks" by auto
    from d(2) obtain x xs where js: "js = x # xs"
      by (cases js) auto
    have e: "get_at (JObj []) js = None"
      by (simp add: js)
    show ?thesis
    proof (cases t)
      case (JObj m)
      then show ?thesis
        using Cons.IH [OF d] r True e
        by (cases "map_of m k") (simp_all add: update_conv')
    qed (use Cons.IH [OF d] r True e in simp_all)
  next
    case False
    then show ?thesis
      using r by (cases t) (simp_all add: update_conv')
  qed
qed

lemma db_save_ok: "can_write (Suc n) d \<Longrightarrow> db_save d a v = Inr (stored d a v)"
  by (cases "writes_left d"; cases "the (writes_left d)")
     (auto simp: db_save_def can_write_def stored_def)

lemma db_save_fails: "writes_left d = Some 0 \<Longrightarrow> db_save d a v = Inl StorageUnavailable"
  by (simp add: db_save_def)

lemma can_write_stored: "can_write (Suc n) d \<Longrightarrow> can_write n (stored d a v)"
  by (cases "writes_left d") (auto simp: can_write_def stored_def)

lemma writes_left_stored: "writes_left d = Some (Suc n) \<Longrightarrow> writes_left (stored d a v) = Some n"
  by (simp add: stored_def)

lemma db_get_stored: "db_get (stored d a v) b = get_at (set_at (root d) (segments a) v) (segments b)"
  by (simp add: db_get_def stored_def)

lemma segments_trailing_sep: "segments (xs @ ''/'') = segments xs"
  using segments_sep [of xs "[]"] by simp

lemma segments_users:
  "segments (''/users/'' @ u @ ''/flashcards/'' @ r) = ''users'' # segments u @ ''flashcards'' # segments r"
proof -
  have "segments (''/users/'' @ u @ ''/flashcards/'' @ r)
      = segments (''users'' @ CHR ''/'' # (u @ CHR ''/'' # (''flashcards'' @ CHR ''/'' # r)))"
    by simp
  also have "\<dots> = segments ''users'' @ segments u @ segments ''flashcards'' @ segments r"
    by (simp only: segments_sep)
  also have "\<dots> = ''users'' # segments u @ ''flashcards'' # segments r"
    by (simp add: segments_plain)
  finally show ?thesis .
qed

lemma segments_users_root:
  "segments (''/users/'' @ u @ ''/flashcards'') = ''users'' # segments u @ [''flashcards'']"
proof -
  have "segments (''/users/'' @ u @ ''/flashcards'')
      = segments (''users'' @ CHR ''/'' # (u @ CHR ''/'' # ''flashcards''))"
    by simp
  also have "\<dots> = segments ''users'' @ segments u @ segments ''flashcards''"
    by (simp only: segments_sep)
  also have "\<dots> = ''users'' # segments u @ [''flashcards'']"
    by (simp add: segments_plain)
  finally show ?thesis .
qed

lemma endswith_sepE: "endswith_sep s \<Longrightarrow> \<exists>g. s = g @ ''/''"
  unfolding endswith_sep_def by (metis append_butlast_last_id)

lemma segments_create_folder: "segments (create_folder_path f @ r) = segments f @ segments r"
proof (cases "endswith_sep f")
  case True
  then obtain g where "f = g @ ''/''" using endswith_sepE by blast
  then show ?thesis
    using True segments_sep [of g r] by (simp add: create_folder_path_def segments_trailing_sep)
next
  case False
  then show ?thesis
    using segments_sep [of f r] by (simp add: create_folder_path_def)
qed

lemma segments_move_folder: "segments (move_folder_path l @ r) = segments l @ segments r"
proof (cases "endswith_sep l")
  case True
  then obtain g where "l = g @ ''/''" using endswith_sepE by blast
  then show ?thesis
    using True segments_sep [of g r] by (simp add: move_folder_path_def segments_trailing_sep)
next
  case False
  then show ?thesis
    using segments_sep [of l r] by (cases "l = []") (simp_all add: move_folder_path_def)
qed

lemma get_at_delete_absent:
  "get_at t p = Some (JObj m) \<Longrightarrow> get_at t q = None \<Longrightarrow>
     get_at (set_at t p (JObj (AList.delete k m))) q = None"
proof (induction p arbitrary: t q)
  case Nil
  then obtain j js where q: "q = j # js" by (cases q) auto
  from Nil have t: "t = JObj m" by simp
  show ?case
    using Nil(2) by (cases "j = k") (simp_all add: q t delete_conv')
next
  case (Cons s ss)
  from Cons.prems(1) obtain n c where t: "t = JObj n" and c: "map_of n s = Some c"
    and sub: "get_at c ss = Some (JObj m)"
    by (cases t; cases "map_of (case t of JObj x \<Rightarrow> x | _ \<Rightarrow> []) s") auto
  from Cons.prems(2) obtain j js where q: "q = j # js" by (cases q) auto
  show ?case
  proof (cases "j = s")
    case True
    with Cons.prems(2) have "get_at c js = None" by (simp add: q t c)
    from Cons.IH [OF sub this] show ?thesis
      by (simp add: q t c True update_conv')
  next
    case False
    then show ?thesis
      using Cons.prems(2) by (simp add: q t c update_conv')
  qed
qed

lemma get_at_set_at_above: "r \<noteq> [] \<Longrightarrow> \<exists>m. get_at (set_at t (p @ r) v) p = Some (JObj m)"
proof (induction p arbitrary: t)
  case Nil
  then obtain k ks where "r = k # ks" by (cases r) auto
  then show ?case by (cases t) simp_all
next
  case (Cons k ks)
  from Cons.IH [OF Cons.prems] show ?case
    by (cases t) (simp_all add: update_conv')
qed

lemma get_at_append: "get_at t (p @ q) = (case get_at t p of None \<Rightarrow> None | Some c \<Rightarrow> get_at c q)"
proof (induction p arbitrary: t)
  case Nil
  show ?case by simp
next
  case (Cons k ks)
  show ?case
    by (cases t) (simp_all add: Cons.IH split: option.splits)
qed

lemmas segments_users_norm = segments_users [simplified] segments_users_root [simplified]

lemma move_source_path:
  "segments (''/users/'' @ u @ ''/flashcards/'' @ move_folder_path cur)
     = ''users'' # segments u @ ''flashcards'' # segments cur"
  using segments_move_folder [of cur "[]"] by (simp add: segments_users_norm)

lemma move_target_path:
  "segments (''/users/'' @ u @ ''/flashcards/'' @ move_folder_path l @ fid)
     = ''users'' # segments u @ ''flashcards'' # segments l @ segments fid"
  by (simp add: segments_users_norm segments_move_folder)

lemma root_stored: "root (stored d a v) = set_at (root d) (segments a) v"
  by (simp add: stored_def)

lemma move_result:
  assumes "can_write 2 d"
    and "db_get d (''/users/'' @ u @ ''/flashcards/'' @ move_folder_path cur) = Some (JObj m)"
    and "map_of m fid = Some doc"
  shows "move_flashcard_set Passed expected d u fid mv cur =
     (move_success u (move_folder_path cur) fid (move_folder_path mv),
      stored (stored d (''/users/'' @ u @ ''/flashcards/'' @ move_folder_path cur)
                (JObj (AList.delete fid m)))
        (''/users/'' @ u @ ''/flashcards/'' @ move_folder_path mv @ fid) doc)"
proof -
  have w1: "can_write (Suc 1) d" using assms(1) by (simp add: numeral_2_eq_2)
  have w2: "can_write (Suc 0) (stored d a v)" for a v
    using can_write_stored [OF w1] by simp
  show ?thesis
    using assms(2,3) by (simp add: move_flashcard_set_def Let_def db_save_ok [OF w1] db_save_ok [OF w2])
qed

lemma move_interrupted_result:
  assumes "writes_left d = Some 1"
    and "db_get d (''/users/'' @ u @ ''/flashcards/'' @ move_folder_path cur) = Some (JObj m)"
    and "map_of m fid = Some doc"
  shows "move_flashcard_set Passed expected d u fid mv cur =
     (Unhandled StorageUnavailable,
      stored d (''/users/'' @ u @ ''/flashcards/'' @ move_folder_path cur)
                (JObj (AList.delete fid m)))"
proof -
  have w1: "can_write (Suc 0) d" using assms(1) by (simp add: can_write_def)
  have w2: "writes_left (stored d a v) = Some 0" for a v
    using assms(1) by (simp add: stored_def)
  show ?thesis
    using assms(2,3) by (simp add: move_flashcard_set_def Let_def db_save_ok [OF w1] db_save_fails [OF w2])
qed


subsection \<open>Facts about \<^verbatim>\<open>hash_to_numeric\<close>\<close>

lemma hex8_length: "length (hex8 w) = 8"
  by (simp add: hex8_def)

lemma hexdigest_length: "length (hexdigest st) = 64"
  by (cases st rule: hexdigest.cases) (simp add: hex8_length)

lemma hex8_chars: "set (hex8 w) \<subseteq> set hex_chars"
proof -
  have "hex_chars ! nat (x mod 16) \<in> set hex_chars" for x :: int
  proof -
    have "nat (x mod 16) < length hex_chars"
      by (simp add: hex_chars_def nat_less_iff)
    then show ?thesis by (rule nth_mem)
  qed
  then show ?thesis
    by (auto simp: hex8_def)
qed

lemma hexdigest_chars: "set (hexdigest st) \<subseteq> set hex_chars"
  using hex8_chars by (cases st rule: hexdigest.cases) auto

lemma index_of_less: "c \<in> set xs \<Longrightarrow> index_of xs c < length xs"
  by (induction xs) auto

lemma foldl_hex_bounds:
  "set s \<subseteq> set hex_chars \<Longrightarrow> 0 \<le> acc \<Longrightarrow>
     0 \<le> foldl (\<lambda>acc c. 16 * acc + int (index_of hex_chars c)) acc s \<and>
     foldl (\<lambda>acc c. 16 * acc + int (index_of hex_chars c)) acc s < (acc + 1) * 16 ^ length s"
proof (induction s arbitrary: acc)
  case Nil
  then show ?case by simp
next
  case (Cons c cs)
  let ?v = "int (index_of hex_chars c)"
  have "index_of hex_chars c < length hex_chars"
    using Cons.prems by (intro index_of_less) auto
  then have v: "?v < 16" by (simp add: hex_chars_def)
  have nonneg: "0 \<le> 16 * acc + ?v" using Cons.prems by simp
  from Cons.IH [OF _ nonneg] Cons.prems
  have ih: "0 \<le> foldl (\<lambda>acc c. 16 * acc + int (index_of hex_chars c)) (16 * acc + ?v) cs"
    "foldl (\<lambda>acc c. 16 * acc + int (index_of hex_chars c)) (16 * acc + ?v) cs
       < (16 * acc + ?v + 1) * 16 ^ length cs"
    by auto
  note ih(2)
  also have "(16 * acc + ?v + 1) * 16 ^ length cs \<le> (16 * acc + 16) * 16 ^ length cs"
    using v by (intro mult_right_mono) auto
  also have "\<dots> = (acc + 1) * 16 ^ length (c # cs)"
    by (simp add: algebra_simps)
  finally have "foldl (\<lambda>acc c. 16 * acc + int (index_of hex_chars c)) (16 * acc + ?v) cs
       < (acc + 1) * 16 ^ length (c # cs)" .
  with ih(1) show ?case by simp
qed

lemma int_of_hex_bounds:
  "set s \<subseteq> set hex_chars \<Longrightarrow> 0 \<le> int_of_hex s \<and> int_of_hex s < 16 ^ length s"
  using foldl_hex_bounds [of s 0] by (simp add: int_of_hex_def)

lemma str_digits_chars: "set (str_digits n) \<subseteq> set ''0123456789''"
proof (induction n rule: str_digits.induct)
  case (1 n)
  have d: "''0123456789'' ! k \<in> set ''0123456789''" if "k < 10" for k
    using that by (intro nth_mem) simp
  show ?case
  proof (cases "n < 10")
    case True
    then show ?thesis
      using d [of n] by (subst str_digits.simps) simp
  next
    case False
    have "n mod 10 < 10" by simp
    then show ?thesis
      using False 1 d [of "n mod 10"] by (subst str_digits.simps) simp
  qed
qed

lemma str_digits_nonempty: "str_digits n \<noteq> []"
  by (subst str_digits.simps) simp

lemma str_digits_length: "n < 10 ^ k \<Longrightarrow> 0 < k \<Longrightarrow> length (str_digits n) \<le> k"
proof (induction n arbitrary: k rule: str_digits.induct)
  case (1 n)
  show ?case
  proof (cases "n < 10")
    case True
    then show ?thesis
      using 1(3) by (subst str_digits.simps) simp
  next
    case False
    from 1(2,3) False obtain j where k: "k = Suc j" and j: "0 < j"
      by (cases k; cases "k - 1") auto
    have "n div 10 < 10 ^ j"
      using 1(2) k by (simp add: less_mult_imp_div_less mult.commute)
    from 1(1) [OF False this j] show ?thesis
      using False k by (subst str_digits.simps) simp
  qed
qed

lemma hash_to_numeric_digits: "set (hash_to_numeric s) \<subseteq> set ''0123456789''"
proof -
  have "0 \<le> int_of_hex (hexdigest (sha256 (encode s)))"
    using int_of_hex_bounds [OF hexdigest_chars] by blast
  then show ?thesis
    using str_digits_chars by (simp add: hash_to_numeric_def python_str_def)
qed

lemma hash_to_numeric_nonempty: "hash_to_numeric s \<noteq> []"
  by (simp add: hash_to_numeric_def python_str_def str_digits_nonempty)

lemma hash_to_numeric_length: "length (hash_to_numeric s) \<le> 78"
proof -
  let ?v = "int_of_hex (hexdigest (sha256 (encode s)))"
  have b: "0 \<le> ?v" "?v < 16 ^ 64"
    using int_of_hex_bounds [OF hexdigest_chars, of "sha256 (encode s)"]
    by (simp_all add: hexdigest_length)
  have "nat ?v < 10 ^ 78"
  proof -
    have "?v < 10 ^ 78" using b(2) by simp
    then show ?thesis using b(1) by (simp add: nat_less_iff)
  qed
  then have "length (str_digits (nat ?v)) \<le> 78"
    by (rule str_digits_length) simp
  then show ?thesis
    using b(1) by (simp add: hash_to_numeric_def python_str_def)
qed

lemma hash_to_numeric_no_sep: "CHR ''/'' \<notin> set (hash_to_numeric s)"
  using hash_to_numeric_digits [of s] by auto

lemma segments_hash: "segments (hash_to_numeric s) = [hash_to_numeric s]"
  by (rule segments_plain [OF hash_to_numeric_no_sep hash_to_numeric_nonempty])

subsection \<open>Evaluating the digest\<close>

lemma schedule_numeral:
  "schedule (numeral k) rs =
     schedule (pred_numeral k)
       (add32 (add32 (add32 (ssig1 (rs ! 1)) (rs ! 6)) (ssig0 (rs ! 14))) (rs ! 15) # rs)"
  by (simp add: numeral_eq_Suc)

lemma replicate_numeral: "replicate (numeral k) x = x # replicate (pred_numeral k) x"
  by (simp add: numeral_eq_Suc)

lemmas sha_eval = sha256_def encode_def pad_def be_bytes8_def blocks.simps be_words.simps
  compress_def schedule_numeral replicate_numeral sha256_k_def sha256_init_def add32_def
  bsig0_def bsig1_def ssig0_def ssig1_def ch_def maj_def rotr_def

lemma sha256_abc:
  "sha256 (encode ''abc'') =
     (0xba7816bf, 0x8f01cfea, 0x414140de, 0x5dae2223, 0xb00361a3, 0x96177a9c, 0xb410ff61, 0xf20015ad)"
  by (simp add: sha_eval)

section \<open>The claims\<close>


lemmas example_eval = example_store_def db_get_def segments_def move_folder_path_def
  endswith_sep_def can_write_def



text \<open>
  Claim C7. For a user with no stored hierarchy (nothing at \<^verbatim>\<open>/users/{id}/flashcards\<close>),
  \<^verbatim>\<open>get_today_cards\<close> answers with status 200 and the explicit no-cards signal
  \<^verbatim>\<open>["User has no flashcards"]\<close>; this response differs from every validation-error
  response and is not an exception.
\<close>

theorem today_cards_no_hierarchy:
  assumes "db_get d (''/users/'' @ user_id @ ''/flashcards'') = None"
  shows "get_today_cards today_card_list Passed expected d user_id
           = Response (Some (JList [JStr ''User has no flashcards''])) 200
       \<and> get_today_cards today_card_list Passed expected d user_id \<noteq> format_error msg expected'
       \<and> get_today_cards today_card_list Passed expected d user_id \<noteq> Unhandled e"
  using assms by (simp add: get_today_cards_def format_error_def)

theorem today_cards_no_hierarchy_witness:
  "db_get (example_store None) (''/users/'' @ ''v'' @ ''/flashcards'') = None
   \<and> get_today_cards (\<lambda>x. x) Passed ''{}'' (example_store None) ''v''
       = Response (Some (JList [JStr ''User has no flashcards''])) 200
   \<and> get_today_cards (\<lambda>x. x) Passed ''{}'' (example_store None) ''v''
       \<noteq> format_error ''userID is missing'' ''{}''"
  using today_cards_no_hierarchy [of "example_store None" "''v''" "\<lambda>x. x" "''{}''"
      "''userID is missing''" "''{}''" StorageUnavailable]
  by (simp add: example_eval format_error_def)

text \<open>
  Claim C10. When a document is already stored at the destination address (target folder
  plus set id), a move whose two writes succeed answers with success and leaves the moved
  set document at that address, whatever was there before: no existence check is made at
  the destination.
\<close>

theorem move_overwrites_destination:
  assumes "can_write 2 d"
    and "db_get d (''/users/'' @ user_id @ ''/flashcards/'' @ move_folder_path current_location)
           = Some (JObj flashcard_data)"
    and "map_of flashcard_data flashcard_id = Some set_doc"
    and "db_get d (''/users/'' @ user_id @ ''/flashcards/'' @ move_folder_path move_location
                     @ flashcard_id) = Some other"
  shows "fst (move_flashcard_set Passed expected d user_id flashcard_id move_location
                current_location)
           = move_success user_id (move_folder_path current_location) flashcard_id
               (move_folder_path move_location)
       \<and> db_get (snd (move_flashcard_set Passed expected d user_id flashcard_id move_location
                        current_location))
            (''/users/'' @ user_id @ ''/flashcards/'' @ move_folder_path move_location
               @ flashcard_id) = Some set_doc"
  by (simp only: move_result [OF assms(1-3)] fst_conv snd_conv db_get_stored get_at_set_at_same
      simp_thms)

theorem move_overwrites_destination_witness:
  "can_write 2 (example_store None)
   \<and> db_get (example_store None) (''/users/'' @ ''u'' @ ''/flashcards/'' @ move_folder_path ''a'')
       = Some (JObj [(''7'', example_doc)])
   \<and> map_of [(''7'', example_doc)] ''7'' = Some example_doc
   \<and> db_get (example_store None)
         (''/users/'' @ ''u'' @ ''/flashcards/'' @ move_folder_path ''b'' @ ''7'')
       = Some other_doc
   \<and> db_get (snd (move_flashcard_set Passed ''{}'' (example_store None) ''u'' ''7'' ''b'' ''a''))
        (''/users/'' @ ''u'' @ ''/flashcards/'' @ move_folder_path ''b'' @ ''7'')
       = Some example_doc"
proof -
  have h1: "can_write 2 (example_store None)"
    by (simp add: example_eval)
  have h2: "db_get (example_store None)
              (''/users/'' @ ''u'' @ ''/flashcards/'' @ move_folder_path ''a'')
            = Some (JObj [(''7'', example_doc)])"
    by (simp add: example_eval)
  have h3: "map_of [(''7'', example_doc)] ''7'' = Some example_doc"
    by simp
  have h4: "db_get (example_store None)
              (''/users/'' @ ''u'' @ ''/flashcards/'' @ move_folder_path ''b'' @ ''7'')
            = Some other_doc"
    by (simp add: example_eval)
  from move_overwrites_destination [OF h1 h2 h3 h4, of "''{}''"] h1 h2 h3 h4
  show ?thesis by blast
qed

text \<open>
  Claim C3, as amended. For a set stored under a well-formed id in the source folder, a
  move whose two writes succeed and whose new address is neither equal to, nor nested
  with, the old address answers with success; afterwards a read at the new address
  returns the very document that was stored under that id in the source folder (hence
  the same cards, name, description and id field), under the same id, and a read at the
  old address returns nothing.
\<close>

theorem move_preserves_document:
  assumes "can_write 2 d"
    and "db_get d (''/users/'' @ user_id @ ''/flashcards/'' @ move_folder_path current_location)
           = Some (JObj flashcard_data)"
    and "map_of flashcard_data flashcard_id = Some set_doc"
    and "segments flashcard_id = [flashcard_id]"
    and "\<not> prefix (segments current_location @ [flashcard_id])
                    (segments move_location @ [flashcard_id])"
    and "\<not> prefix (segments move_location @ [flashcard_id])
                    (segments current_location @ [flashcard_id])"
  shows "fst (move_flashcard_set Passed expected d user_id flashcard_id move_location
                current_location)
           = move_success user_id (move_folder_path current_location) flashcard_id
               (move_folder_path move_location)
       \<and> db_get (snd (move_flashcard_set Passed expected d user_id flashcard_id move_location
                        current_location))
            (''/users/'' @ user_id @ ''/flashcards/'' @ move_folder_path move_location
               @ flashcard_id) = Some set_doc
       \<and> db_get (snd (move_flashcard_set Passed expected d user_id flashcard_id move_location
                        current_location))
            (''/users/'' @ user_id @ ''/flashcards/'' @ move_folder_path current_location
               @ flashcard_id) = None"
proof -
  let ?S = "''users'' # segments user_id @ ''flashcards'' # segments current_location"
  let ?T = "''users'' # segments user_id @ ''flashcards'' # segments move_location @ [flashcard_id]"
  let ?reduced = "JObj (AList.delete flashcard_id flashcard_data)"
  have pS: "segments (''/users/'' @ user_id @ ''/flashcards/'' @ move_folder_path current_location) = ?S"
    by (rule move_source_path)
  have pT: "segments (''/users/'' @ user_id @ ''/flashcards/'' @ move_folder_path move_location
                        @ flashcard_id) = ?T"
    by (simp only: move_target_path assms(4))
  have pO: "segments (''/users/'' @ user_id @ ''/flashcards/'' @ move_folder_path current_location
                        @ flashcard_id) = ?S @ [flashcard_id]"
    using move_target_path [of user_id current_location flashcard_id] assms(4) by simp
  have div: "\<not> prefix ?T (?S @ [flashcard_id])" "\<not> prefix (?S @ [flashcard_id]) ?T"
    using assms(5,6) by simp_all
  have "get_at (set_at (set_at (root d) ?S ?reduced) ?T set_doc) (?S @ [flashcard_id])
      = get_at (set_at (root d) ?S ?reduced) (?S @ [flashcard_id])"
    by (rule get_at_set_at_diverge [OF div])
  also have "\<dots> = get_at ?reduced [flashcard_id]"
    by (rule get_at_set_at_below)
  also have "\<dots> = None"
    by (simp add: delete_conv')
  finally have old: "get_at (set_at (set_at (root d) ?S ?reduced) ?T set_doc) (?S @ [flashcard_id])
                       = None" .
  show ?thesis
    by (simp only: move_result [OF assms(1-3)] fst_conv snd_conv db_get_stored root_stored
        pS pT pO old get_at_set_at_same simp_thms)
qed

text \<open>
  Claim C1, as amended. The move performs two separate writes, the removal from the
  source folder first. When the store fails between them (it performs exactly one more
  write), the handler ends with the unhandled storage error; the set, which was stored
  at the old address before, is then stored neither at the old address nor at the
  destination address (which held nothing before the move).
\<close>

theorem move_interrupted_loses_set:
  assumes "writes_left d = Some 1"
    and "db_get d (''/users/'' @ user_id @ ''/flashcards/'' @ move_folder_path current_location)
           = Some (JObj flashcard_data)"
    and "map_of flashcard_data flashcard_id = Some set_doc"
    and "segments flashcard_id = [flashcard_id]"
    and "db_get d (''/users/'' @ user_id @ ''/flashcards/'' @ move_folder_path move_location
                     @ flashcard_id) = None"
  shows "fst (move_flashcard_set Passed expected d user_id flashcard_id move_location
                current_location) = Unhandled StorageUnavailable
       \<and> db_get d (''/users/'' @ user_id @ ''/flashcards/'' @ move_folder_path current_location
                      @ flashcard_id) = Some set_doc
       \<and> db_get (snd (move_flashcard_set Passed expected d user_id flashcard_id move_location
                        current_location))
            (''/users/'' @ user_id @ ''/flashcards/'' @ move_folder_path current_location
               @ flashcard_id) = None
       \<and> db_get (snd (move_flashcard_set Passed expected d user_id flashcard_id move_location
                        current_location))
            (''/users/'' @ user_id @ ''/flashcards/'' @ move_folder_path move_location
               @ flashcard_id) = None"
proof -
  let ?S = "''users'' # segments user_id @ ''flashcards'' # segments current_location"
  let ?T = "''users'' # segments user_id @ ''flashcards'' # segments move_location @ [flashcard_id]"
  let ?reduced = "JObj (AList.delete flashcard_id flashcard_data)"
  have pS: "segments (''/users/'' @ user_id @ ''/flashcards/'' @ move_folder_path current_location) = ?S"
    by (rule move_source_path)
  have pT: "segments (''/users/'' @ user_id @ ''/flashcards/'' @ move_folder_path move_location
                        @ flashcard_id) = ?T"
    by (simp only: move_target_path assms(4))
  have pO: "segments (''/users/'' @ user_id @ ''/flashcards/'' @ move_folder_path current_location
                        @ flashcard_id) = ?S @ [flashcard_id]"
    using move_target_path [of user_id current_location flashcard_id] assms(4) by simp
  have src: "get_at (root d) ?S = Some (JObj flashcard_data)"
    using assms(2) by (simp only: db_get_def pS)
  have tgt: "get_at (root d) ?T = None"
    using assms(5) by (simp only: db_get_def pT)
  have before: "get_at (root d) (?S @ [flashcard_id]) = Some set_doc"
    unfolding get_at_append [of "root d" ?S "[flashcard_id]"] src by (simp add: assms(3))
  have old: "get_at (set_at (root d) ?S ?reduced) (?S @ [flashcard_id]) = None"
    unfolding get_at_set_at_below [of "root d" ?S ?reduced "[flashcard_id]"]
    by (simp add: delete_conv')
  have new: "get_at (set_at (root d) ?S ?reduced) ?T = None"
    by (rule get_at_delete_absent [OF src tgt])
  show ?thesis
    by (simp only: move_interrupted_result [OF assms(1-3)] fst_conv snd_conv db_get_def
        root_stored pS pT pO old new before simp_thms)
qed

end
